theory Spec2Isabelle
  imports Main
begin

section \<open>Calendar arithmetic of the host language\<close>

text \<open>
  The calendar code (\<^verbatim>\<open>calendar-logic.js\<close>) does its date arithmetic through the
  built-in \<^verbatim>\<open>Date\<close> object. Its time values and the abstract operations on them are
  modelled here on integers, following the ECMAScript definitions: a time value is a number
  of milliseconds since 1970-01-01T00:00:00Z, and \<^verbatim>\<open>NaN\<close> (an invalid date) is
  \<open>None\<close>. All values that occur are integers below \<open>2^53\<close>, so the floating-point
  numbers of the language are exact on them.
\<close>

definition msPerDay :: int where
  "msPerDay = 86400000"

definition Day :: "int \<Rightarrow> int" where
  "Day t = t div msPerDay"

definition TimeWithinDay :: "int \<Rightarrow> int" where
  "TimeWithinDay t = t mod msPerDay"

definition DaysInYear :: "int \<Rightarrow> int" where
  "DaysInYear y =
     (if y mod 4 \<noteq> 0 then 365
      else if y mod 100 \<noteq> 0 then 366
      else if y mod 400 \<noteq> 0 then 365
      else 366)"

definition DayFromYear :: "int \<Rightarrow> int" where
  "DayFromYear y =
     365 * (y - 1970) + (y - 1969) div 4 - (y - 1901) div 100 + (y - 1601) div 400"

text \<open>
  ECMAScript defines \<open>YearFromTime t\<close> as the largest year \<open>y\<close> whose first day is not
  after \<open>t\<close>. The executable form below estimates the year from the mean length of a
  year (146097 days in 400 years) and corrects the estimate by at most one; the lemmas
  \<open>YearFromDay_lower\<close>, \<open>YearFromDay_upper\<close> and \<open>YearFromDay_unique\<close> show that it is the
  year of the ECMAScript definition.
\<close>

definition YearFromDay :: "int \<Rightarrow> int" where
  "YearFromDay d =
     (let y = 1970 + (400 * d) div 146097 in
      if d < DayFromYear y then y - 1
      else if DayFromYear (y + 1) \<le> d then y + 1
      else y)"

definition YearFromTime :: "int \<Rightarrow> int" where
  "YearFromTime t = YearFromDay (Day t)"

definition leap_flag :: "int \<Rightarrow> int" where
  "leap_flag y = (if DaysInYear y = 366 then 1 else 0)"

definition InLeapYear :: "int \<Rightarrow> int" where
  "InLeapYear t = leap_flag (YearFromTime t)"

definition DayWithinYear :: "int \<Rightarrow> int" where
  "DayWithinYear t = Day t - DayFromYear (YearFromTime t)"

text \<open>The month table of ECMAScript, on the day within the year and the leap-year flag.\<close>

definition month_of_day :: "int \<Rightarrow> int \<Rightarrow> int" where
  "month_of_day l d =
     (if d < 31 then 0
      else if d < 59 + l then 1
      else if d < 90 + l then 2
      else if d < 120 + l then 3
      else if d < 151 + l then 4
      else if d < 181 + l then 5
      else if d < 212 + l then 6
      else if d < 243 + l then 7
      else if d < 273 + l then 8
      else if d < 304 + l then 9
      else if d < 334 + l then 10
      else 11)"

definition MonthFromTime :: "int \<Rightarrow> int" where
  "MonthFromTime t = month_of_day (InLeapYear t) (DayWithinYear t)"

definition date_of_day :: "int \<Rightarrow> int \<Rightarrow> int" where
  "date_of_day l d =
     (let m = month_of_day l d in
      if m = 0 then d + 1
      else if m = 1 then d - 30
      else if m = 2 then d - 58 - l
      else if m = 3 then d - 89 - l
      else if m = 4 then d - 119 - l
      else if m = 5 then d - 150 - l
      else if m = 6 then d - 180 - l
      else if m = 7 then d - 211 - l
      else if m = 8 then d - 242 - l
      else if m = 9 then d - 272 - l
      else if m = 10 then d - 303 - l
      else d - 333 - l)"

definition DateFromTime :: "int \<Rightarrow> int" where
  "DateFromTime t = date_of_day (InLeapYear t) (DayWithinYear t)"

text \<open>
  \<open>MakeDay year month date\<close> carries whole years out of the month, finds the day number \<open>t\<close>
  of the first day of that month (the day on which \<open>YearFromTime\<close>, \<open>MonthFromTime\<close> and
  \<open>DateFromTime\<close> read that year, that month and 1: lemma \<open>decode_MakeDay\<close>) and adds
  \<open>date - 1\<close>, whatever the size of \<open>date\<close>. \<open>month_start\<close> is the day within the year
  on which a month begins.
\<close>

definition month_start :: "int \<Rightarrow> int \<Rightarrow> int" where
  "month_start l mn =
     (if mn = 0 then 0
      else if mn = 1 then 31
      else if mn = 2 then 59 + l
      else if mn = 3 then 90 + l
      else if mn = 4 then 120 + l
      else if mn = 5 then 151 + l
      else if mn = 6 then 181 + l
      else if mn = 7 then 212 + l
      else if mn = 8 then 243 + l
      else if mn = 9 then 273 + l
      else if mn = 10 then 304 + l
      else 334 + l)"

definition MakeDay :: "int \<Rightarrow> int \<Rightarrow> int \<Rightarrow> int" where
  "MakeDay year month date =
     (let ym = year + month div 12; mn = month mod 12
      in DayFromYear ym + month_start (leap_flag ym) mn + date - 1)"

definition MakeDate :: "int \<Rightarrow> int \<Rightarrow> int" where
  "MakeDate day time = day * msPerDay + time"

definition TimeClip :: "int \<Rightarrow> int option" where
  "TimeClip time = (if \<bar>time\<bar> > 8640000000000000 then None else Some time)"

text \<open>
  The getters and setters of a date work in the local time of the host. ECMAScript leaves
  the offset of the host's time zone to the implementation, as \<open>LocalTZA(t, isUTC)\<close>: the
  offset in milliseconds at the time value \<open>t\<close> when \<open>isUTC\<close> is true, and the offset that
  belongs to the local time \<open>t\<close> when it is false (for a local time that a transition skips
  or repeats, the offset before the transition). The zone of the host is that function and
  a parameter of everything that reads or builds a local time.
\<close>

type_synonym zone = "int \<Rightarrow> bool \<Rightarrow> int"

definition LocalTime :: "zone \<Rightarrow> int \<Rightarrow> int" where
  "LocalTime z t = t + z t True"

definition UTC :: "zone \<Rightarrow> int \<Rightarrow> int" where
  "UTC z t = t - z t False"

text \<open>A host in the zone UTC.\<close>

definition utc_zone :: zone where
  "utc_zone = (\<lambda>t isUTC. 0)"

text \<open>
  A host in New York in the year 2025: five hours behind UTC until 2025-03-09T07:00Z, four
  hours behind until 2025-11-02T06:00Z, five hours behind after that. The local times from
  02:00 to 03:00 on 9 March do not exist and are read with the offset before the
  transition, as are the local times from 01:00 to 02:00 on 2 November, which occur twice.
\<close>

definition new_york_2025 :: zone where
  "new_york_2025 =
     (\<lambda>t isUTC.
        if isUTC then
          (if t < 1741503600000 then - 18000000
           else if t < 1762063200000 then - 14400000
           else - 18000000)
        else
          (if t < 1741489200000 then - 18000000
           else if t < 1762048800000 then - 14400000
           else - 18000000))"

text \<open>
  The zone has the local time \<open>l\<close> when \<open>l\<close>, taken to UTC and back, is \<open>l\<close> again: no
  transition skips it. The zone keeps the time value \<open>t\<close> when \<open>t\<close> is the time value that
  the zone gives to the local time of \<open>t\<close>: \<open>t\<close> is not in the second pass of a repeated
  hour.
\<close>

definition zone_has :: "zone \<Rightarrow> int \<Rightarrow> bool" where
  "zone_has z l \<longleftrightarrow> LocalTime z (UTC z l) = l"

definition zone_keeps :: "zone \<Rightarrow> int \<Rightarrow> bool" where
  "zone_keeps z t \<longleftrightarrow> UTC z (LocalTime z t) = t"

text \<open>The constructor \<^verbatim>\<open>new Date(year, month, date)\<close> reads a year from 0 to 99 as 1900 + year.\<close>

definition MakeFullYear :: "int \<Rightarrow> int" where
  "MakeFullYear y = (if 0 \<le> y \<and> y \<le> 99 then 1900 + y else y)"

type_synonym Date = "int option"

definition Date_ymd :: "zone \<Rightarrow> int \<Rightarrow> int \<Rightarrow> int \<Rightarrow> Date" where
  "Date_ymd z year month date =
     TimeClip (UTC z (MakeDate (MakeDay (MakeFullYear year) month date) 0))"

text \<open>\<^verbatim>\<open>new Date(value)\<close> for a date or a number of milliseconds.\<close>

definition Date_copy :: "Date \<Rightarrow> Date" where
  "Date_copy tv = (case tv of None \<Rightarrow> None | Some t \<Rightarrow> TimeClip t)"

definition getDate :: "zone \<Rightarrow> Date \<Rightarrow> int option" where
  "getDate z tv = map_option (\<lambda>t. DateFromTime (LocalTime z t)) tv"

definition getMonth :: "zone \<Rightarrow> Date \<Rightarrow> int option" where
  "getMonth z tv = map_option (\<lambda>t. MonthFromTime (LocalTime z t)) tv"

definition getFullYear :: "zone \<Rightarrow> Date \<Rightarrow> int option" where
  "getFullYear z tv = map_option (\<lambda>t. YearFromTime (LocalTime z t)) tv"

text \<open>
  \<^verbatim>\<open>setMonth(month)\<close> and \<^verbatim>\<open>setFullYear(year)\<close>, whose argument may be \<^verbatim>\<open>NaN\<close>. They
  keep the day of the month and the time within the day of the local time; \<open>MakeDay\<close>
  carries a day beyond the end of the month into the following month.
\<close>

definition setMonth :: "zone \<Rightarrow> Date \<Rightarrow> int option \<Rightarrow> Date" where
  "setMonth z tv month =
     (case tv of
        None \<Rightarrow> None
      | Some t0 \<Rightarrow>
          (case month of
             None \<Rightarrow> None
           | Some m \<Rightarrow>
               (let t = LocalTime z t0;
                    newDate = MakeDate (MakeDay (YearFromTime t) m (DateFromTime t))
                                (TimeWithinDay t)
                in TimeClip (UTC z newDate))))"

definition setFullYear :: "zone \<Rightarrow> Date \<Rightarrow> int option \<Rightarrow> Date" where
  "setFullYear z tv year =
     (case year of
        None \<Rightarrow> None
      | Some y \<Rightarrow>
          (let t = (case tv of None \<Rightarrow> 0 | Some t0 \<Rightarrow> LocalTime z t0);
               newDate = MakeDate (MakeDay y (MonthFromTime t) (DateFromTime t))
                           (TimeWithinDay t)
           in TimeClip (UTC z newDate)))"

text \<open>A date object holds \<^verbatim>\<open>NaN\<close> or a time value inside the range of \<open>TimeClip\<close>.\<close>

definition is_Date :: "Date \<Rightarrow> bool" where
  "is_Date d \<longleftrightarrow> Date_copy d = d"

section \<open>The calendar grid: calendar-logic.js\<close>

text \<open>
  \<^verbatim>\<open>daysInMonth = (year, month) => new Date(year, month + 1, 0).getDate()\<close>, for a
  year and a month that are integers; the result is \<open>None\<close> where the script yields
  \<^verbatim>\<open>NaN\<close>.
\<close>

definition daysInMonth :: "zone \<Rightarrow> int \<Rightarrow> int \<Rightarrow> int option" where
  "daysInMonth z year month = getDate z (Date_ymd z year (month + 1) 0)"

text \<open>
  \<^verbatim>\<open>changeCalendarMonth(offset, currentDate)\<close> copies the date and calls
  \<^verbatim>\<open>setMonth(getMonth() + offset)\<close>; \<^verbatim>\<open>changeCalendarYear\<close> does the same with the
  year.
\<close>

definition changeCalendarMonth :: "zone \<Rightarrow> int \<Rightarrow> Date \<Rightarrow> Date" where
  "changeCalendarMonth z offset currentDate =
     (let newDate = Date_copy currentDate
      in setMonth z newDate (map_option (\<lambda>m. m + offset) (getMonth z newDate)))"

definition changeCalendarYear :: "zone \<Rightarrow> int \<Rightarrow> Date \<Rightarrow> Date" where
  "changeCalendarYear z offset currentDate =
     (let newDate = Date_copy currentDate
      in setFullYear z newDate (map_option (\<lambda>y. y + offset) (getFullYear z newDate)))"

text \<open>
  The local times that the two steps build from the local time \<open>l\<close> of the date: the month
  or the year moved, the day of the month and the time within the day kept.
\<close>

definition month_step_local :: "int \<Rightarrow> int \<Rightarrow> int" where
  "month_step_local k l =
     MakeDate (MakeDay (YearFromTime l) (MonthFromTime l + k) (DateFromTime l))
       (TimeWithinDay l)"

definition year_step_local :: "int \<Rightarrow> int \<Rightarrow> int" where
  "year_step_local k l =
     MakeDate (MakeDay (YearFromTime l + k) (MonthFromTime l) (DateFromTime l))
       (TimeWithinDay l)"

text \<open>The local midnight that \<open>daysInMonth\<close> builds: day 0 of the following month.\<close>

definition month_end_local :: "int \<Rightarrow> int \<Rightarrow> int" where
  "month_end_local year month = MakeDate (MakeDay (MakeFullYear year) (month + 1) 0) 0"

text \<open>
  The Gregorian rule in the words of the specification: a year is a leap year when it is
  divisible by 4 and not by 100, unless it is divisible by 400; months are numbered from 0.
\<close>

definition gregorian_leap :: "int \<Rightarrow> bool" where
  "gregorian_leap y =
     (if y mod 400 = 0 then True else if y mod 100 = 0 then False else y mod 4 = 0)"

definition gregorian_days_in_month :: "int \<Rightarrow> int \<Rightarrow> int" where
  "gregorian_days_in_month y m =
     (if m = 1 then (if gregorian_leap y then 29 else 28)
      else if m = 3 \<or> m = 5 \<or> m = 8 \<or> m = 10 then 30
      else 31)"

text \<open>The length of a month according to the month table of the date arithmetic.\<close>

definition month_length :: "int \<Rightarrow> int \<Rightarrow> int" where
  "month_length l m = (if m = 11 then 31 else month_start l (m + 1) - month_start l m)"

section \<open>Documents and their fields\<close>

text \<open>
  Events and tasks are plain objects read from the document store. A value of a field is
  one of the cases below; an object is the list of its own properties in insertion order,
  and reading a property that is absent gives \<^verbatim>\<open>undefined\<close>.
\<close>

datatype jsval = JUndefined | JNull | JBool bool | JNum int | JStr string | JArr "jsval list"

type_synonym jsobj = "(string \<times> jsval) list"

definition get_prop :: "jsobj \<Rightarrow> string \<Rightarrow> jsval" where
  "get_prop obj k = (case map_of obj k of None \<Rightarrow> JUndefined | Some v \<Rightarrow> v)"

fun truthy :: "jsval \<Rightarrow> bool" where
  "truthy JUndefined = False"
| "truthy JNull = False"
| "truthy (JBool b) = b"
| "truthy (JNum n) = (n \<noteq> 0)"
| "truthy (JStr s) = (s \<noteq> [])"
| "truthy (JArr xs) = True"

text \<open>Assignment to a property: an existing key keeps its place, a new key goes last.\<close>

fun assign :: "string \<Rightarrow> 'v \<Rightarrow> (string \<times> 'v) list \<Rightarrow> (string \<times> 'v) list" where
  "assign k v [] = [(k, v)]"
| "assign k v ((k', v') # ps) = (if k' = k then (k, v) # ps else (k', v') # assign k v ps)"

text \<open>
  \<open>spread base obj\<close> is the object literal \<^verbatim>\<open>{ ...base, ...obj }\<close>; it is also the
  document after \<^verbatim>\<open>updateDoc\<close> has merged the fields \<open>obj\<close> into \<open>base\<close>.
\<close>

definition spread :: "jsobj \<Rightarrow> jsobj \<Rightarrow> jsobj" where
  "spread base obj = foldl (\<lambda>acc (k, v). assign k v acc) base obj"

subsection \<open>Date strings\<close>

definition digit_char :: "nat \<Rightarrow> char" where
  "digit_char n = ''0123456789'' ! n"

fun nat_to_string :: "nat \<Rightarrow> string" where
  "nat_to_string n =
     (if n < 10 then [digit_char n] else nat_to_string (n div 10) @ [digit_char (n mod 10)])"

declare nat_to_string.simps [simp del]

definition int_to_string :: "int \<Rightarrow> string" where
  "int_to_string i =
     (if i < 0 then CHR ''-'' # nat_to_string (nat (- i)) else nat_to_string (nat i))"

text \<open>\<^verbatim>\<open>s.padStart(2, '0')\<close>\<close>

definition padStart2 :: "string \<Rightarrow> string" where
  "padStart2 s = replicate (2 - length s) CHR ''0'' @ s"

text \<open>
  The template
  \<^verbatim>\<open>`${year}-${String(month + 1).padStart(2, '0')}-${String(day).padStart(2, '0')}`\<close>.
\<close>

definition dateString :: "int \<Rightarrow> int \<Rightarrow> int \<Rightarrow> string" where
  "dateString year month day =
     int_to_string year @ ''-'' @ padStart2 (int_to_string (month + 1)) @ ''-''
       @ padStart2 (int_to_string day)"

text \<open>\<^verbatim>\<open>getTodayDateString\<close> formats the current date in the same way.\<close>

definition getTodayDateString :: "zone \<Rightarrow> int \<Rightarrow> string" where
  "getTodayDateString z today =
     dateString (YearFromTime (LocalTime z today)) (MonthFromTime (LocalTime z today))
       (DateFromTime (LocalTime z today))"

section \<open>Occurrences of a month: generateOccurrencesForMonth\<close>

text \<open>
  The body of the loop over the days: the events whose \<^verbatim>\<open>date\<close> is the date string of
  the day, each as \<^verbatim>\<open>{ type: 'event', ...event }\<close>, then the tasks whose \<^verbatim>\<open>dueDate\<close> is
  that string, each as \<^verbatim>\<open>{ type: 'task', ...task }\<close>, in the order of the input arrays.
\<close>

definition occurrencesOn :: "string \<Rightarrow> jsobj list \<Rightarrow> jsobj list \<Rightarrow> jsobj list" where
  "occurrencesOn ds allEvents allTasks =
     map (spread [(''type'', JStr ''event'')])
         (filter (\<lambda>event. get_prop event ''date'' = JStr ds) allEvents)
     @ map (spread [(''type'', JStr ''task'')])
         (filter (\<lambda>task. get_prop task ''dueDate'' = JStr ds) allTasks)"

text \<open>
  The result object has one key for each day from 1 to \<open>daysInMonth year month\<close>; when that
  number is \<^verbatim>\<open>NaN\<close> the loop does not run and the object is empty.
\<close>

definition generateOccurrencesForMonth ::
  "zone \<Rightarrow> int \<Rightarrow> int \<Rightarrow> jsobj list \<Rightarrow> jsobj list \<Rightarrow> (string \<times> jsobj list) list" where
  "generateOccurrencesForMonth z year month allEvents allTasks =
     (case daysInMonth z year month of
        None \<Rightarrow> []
      | Some days \<Rightarrow>
          foldl (\<lambda>occurrences day.
                   let ds = dateString year month day
                   in assign ds (occurrencesOn ds allEvents allTasks) occurrences)
                [] [1..days])"

section \<open>Marking an occurrence done\<close>

text \<open>
  The document store holds the events and the tasks of the signed-in user, each collection
  a map from document ids to documents. Reads and writes of the store are taken to
  succeed; the handlers catch a failing store call and show an error toast.
\<close>

record db =
  events_col :: "string \<rightharpoonup> jsobj"
  tasks_col :: "string \<rightharpoonup> jsobj"

datatype toast_kind = ToastSuccess | ToastError | ToastInfo

type_synonym toast = "string \<times> toast_kind"

text \<open>\<^verbatim>\<open>updateDoc\<close> merges fields into a stored document; it is only called on one that exists.\<close>

definition updateDoc ::
  "(string \<rightharpoonup> jsobj) \<Rightarrow> string \<Rightarrow> jsobj \<Rightarrow> (string \<rightharpoonup> jsobj)" where
  "updateDoc col ident upd =
     (case col ident of None \<Rightarrow> col | Some data \<Rightarrow> col(ident \<mapsto> spread data upd))"

definition toUpperCase_char :: "char \<Rightarrow> char" where
  "toUpperCase_char c =
     (case map_of (zip ''abcdefghijklmnopqrstuvwxyz'' ''ABCDEFGHIJKLMNOPQRSTUVWXYZ'') c of
        None \<Rightarrow> c
      | Some u \<Rightarrow> u)"

text \<open>\<^verbatim>\<open>type.charAt(0).toUpperCase() + type.slice(1)\<close>\<close>

definition capitalize :: "string \<Rightarrow> string" where
  "capitalize s = map toUpperCase_char (take 1 s) @ drop 1 s"

text \<open>The collection path ends in \<^verbatim>\<open>events\<close> when the type is \<^verbatim>\<open>'event'\<close>, else in \<^verbatim>\<open>tasks\<close>.\<close>

definition collection_of :: "string \<Rightarrow> db \<Rightarrow> (string \<rightharpoonup> jsobj)" where
  "collection_of ty d = (if ty = ''event'' then events_col d else tasks_col d)"

definition put_collection :: "string \<Rightarrow> (string \<rightharpoonup> jsobj) \<Rightarrow> db \<Rightarrow> db" where
  "put_collection ty col d =
     (if ty = ''event'' then d\<lparr>events_col := col\<rparr> else d\<lparr>tasks_col := col\<rparr>)"

text \<open>
  \<^verbatim>\<open>Array.isArray(data.completedOccurrencesDates) ? data.completedOccurrencesDates : []\<close>
\<close>

definition completed_dates :: "jsobj \<Rightarrow> jsval list" where
  "completed_dates data =
     (case get_prop data ''completedOccurrencesDates'' of JArr xs \<Rightarrow> xs | _ \<Rightarrow> [])"

text \<open>
  \<^verbatim>\<open>handleMarkDoneClick\<close> (app.js) reads the id, the type and the date of the occurrence
  from the button and asks for confirmation; \<open>confirmed\<close> is the user's answer and \<open>now\<close>
  the time stamp written to \<^verbatim>\<open>updatedAt\<close>. The result is the store and the toasts shown.
\<close>

definition handleMarkDoneClick ::
  "string \<Rightarrow> bool \<Rightarrow> string \<Rightarrow> string \<Rightarrow> string \<Rightarrow> db \<Rightarrow> db \<times> toast list" where
  "handleMarkDoneClick now confirmed ident ty occurrenceDate d =
     (if \<not> confirmed then (d, [])
      else
        (let col = collection_of ty d in
         case col ident of
           None \<Rightarrow> (d, [(''Error: Original '' @ ty @ '' not found.'', ToastError)])
         | Some data \<Rightarrow>
             (let recurrence = get_prop data ''recurrence'';
                  col' =
                    (if truthy recurrence \<and> recurrence \<noteq> JStr ''none'' then
                       (let currentCompletedDates = completed_dates data in
                        if JStr occurrenceDate \<notin> set currentCompletedDates then
                          updateDoc col ident
                            [(''completedOccurrencesDates'',
                                JArr (currentCompletedDates @ [JStr occurrenceDate])),
                             (''updatedAt'', JStr now)]
                        else col)
                     else
                       updateDoc col ident
                         [(''isCompleted'', JBool True), (''updatedAt'', JStr now)])
              in (put_collection ty col' d,
                  [(capitalize ty @ '' occurrence marked as done!'', ToastSuccess)]))))"

text \<open>\<^verbatim>\<open>s.includes(p)\<close> on strings.\<close>

fun includes_str :: "string \<Rightarrow> string \<Rightarrow> bool" where
  "includes_str [] p = (p = [])"
| "includes_str (c # cs) p = (take (length p) (c # cs) = p \<or> includes_str cs p)"

text \<open>
  \<^verbatim>\<open>markEventOccurrenceDone(id)\<close> and \<^verbatim>\<open>markTaskOccurrenceDone(id)\<close> (data-service.js)
  record today's date in \<^verbatim>\<open>completedOccurrences\<close>. \<open>userId\<close> is the module's user id
  and \<open>today\<close> the current time. A value of \<^verbatim>\<open>completedOccurrences\<close> that is truthy and
  not an array makes \<^verbatim>\<open>includes\<close> or \<^verbatim>\<open>push\<close> raise, which the handler catches.
\<close>

definition markEventOccurrenceDone ::
  "zone \<Rightarrow> jsval \<Rightarrow> int \<Rightarrow> string \<Rightarrow> db \<Rightarrow> db \<times> toast list" where
  "markEventOccurrenceDone z userId today ident d =
     (if \<not> truthy userId then (d, [(''Authentication error: No user ID.'', ToastError)])
      else
        (case events_col d ident of
           None \<Rightarrow> (d, [])
         | Some eventData \<Rightarrow>
             (let v = get_prop eventData ''completedOccurrences'';
                  todayDate = getTodayDateString z today
              in case (if truthy v then v else JArr []) of
                   JArr completedOccurrences \<Rightarrow>
                     if JStr todayDate \<notin> set completedOccurrences then
                       (d\<lparr>events_col :=
                            updateDoc (events_col d) ident
                              [(''completedOccurrences'',
                                  JArr (completedOccurrences @ [JStr todayDate]))]\<rparr>,
                        [(''Event occurrence marked as done!'', ToastSuccess)])
                     else
                       (d, [(''Event occurrence already marked as done for today.'', ToastInfo)])
                 | JStr s \<Rightarrow>
                     if includes_str s todayDate then
                       (d, [(''Event occurrence already marked as done for today.'', ToastInfo)])
                     else (d, [(''Error marking event occurrence done!'', ToastError)])
                 | _ \<Rightarrow> (d, [(''Error marking event occurrence done!'', ToastError)]))))"

definition markTaskOccurrenceDone ::
  "zone \<Rightarrow> jsval \<Rightarrow> int \<Rightarrow> string \<Rightarrow> db \<Rightarrow> db \<times> toast list" where
  "markTaskOccurrenceDone z userId today ident d =
     (if \<not> truthy userId then (d, [(''Authentication error: No user ID.'', ToastError)])
      else
        (case tasks_col d ident of
           None \<Rightarrow> (d, [])
         | Some taskData \<Rightarrow>
             (let v = get_prop taskData ''completedOccurrences'';
                  todayDate = getTodayDateString z today
              in case (if truthy v then v else JArr []) of
                   JArr completedOccurrences \<Rightarrow>
                     if JStr todayDate \<notin> set completedOccurrences then
                       (d\<lparr>tasks_col :=
                            updateDoc (tasks_col d) ident
                              [(''completedOccurrences'',
                                  JArr (completedOccurrences @ [JStr todayDate]))]\<rparr>,
                        [(''Task occurrence marked as done!'', ToastSuccess)])
                     else
                       (d, [(''Task occurrence already marked as done for today.'', ToastInfo)])
                 | JStr s \<Rightarrow>
                     if includes_str s todayDate then
                       (d, [(''Task occurrence already marked as done for today.'', ToastInfo)])
                     else (d, [(''Error marking task occurrence done!'', ToastError)])
                 | _ \<Rightarrow> (d, [(''Error marking task occurrence done!'', ToastError)]))))"

text \<open>
  The completion state of a document: the flag \<^verbatim>\<open>isCompleted\<close> and the set of completed
  dates.
\<close>

definition completion_state :: "jsobj \<Rightarrow> jsval \<times> jsval set" where
  "completion_state data = (get_prop data ''isCompleted'', set (completed_dates data))"

text \<open>The document that \<open>handleMarkDoneClick\<close> leaves in the store for a stored document.\<close>

definition mark_done_doc :: "string \<Rightarrow> string \<Rightarrow> jsobj \<Rightarrow> jsobj" where
  "mark_done_doc now occ data =
     (if truthy (get_prop data ''recurrence'') \<and> get_prop data ''recurrence'' \<noteq> JStr ''none''
      then (if JStr occ \<notin> set (completed_dates data)
            then spread data
                   [(''completedOccurrencesDates'', JArr (completed_dates data @ [JStr occ])),
                    (''updatedAt'', JStr now)]
            else data)
      else spread data [(''isCompleted'', JBool True), (''updatedAt'', JStr now)])"

section \<open>Example documents\<close>

text \<open>
  The entities of the examples in the specification, in the shape in which app.js stores
  them (\<^verbatim>\<open>startDate\<close>, \<^verbatim>\<open>recurrence\<close>, \<^verbatim>\<open>completedOccurrencesDates\<close>).
\<close>

definition example_weekly_event :: jsobj where
  "example_weekly_event =
     [(''id'', JStr ''e1''), (''name'', JStr ''Review''), (''startDate'', JStr ''2025-01-01''),
      (''recurrence'', JStr ''weekly''), (''isCompleted'', JBool False),
      (''completedOccurrencesDates'', JArr [])]"

definition example_monthly_event :: jsobj where
  "example_monthly_event =
     [(''id'', JStr ''e2''), (''name'', JStr ''Invoice''), (''startDate'', JStr ''2025-01-31''),
      (''recurrence'', JStr ''monthly''), (''isCompleted'', JBool False),
      (''completedOccurrencesDates'', JArr [])]"

definition example_single_event :: jsobj where
  "example_single_event =
     [(''id'', JStr ''e3''), (''name'', JStr ''Dentist''), (''startDate'', JStr ''2025-02-05''),
      (''recurrence'', JStr ''none''), (''isCompleted'', JBool False)]"

text \<open>A task whose \<^verbatim>\<open>recurrence\<close> field is absent.\<close>

definition example_plain_task :: jsobj where
  "example_plain_task =
     [(''id'', JStr ''t1''), (''name'', JStr ''Pay rent''), (''startDate'', JStr ''2025-02-01''),
      (''completedOccurrencesDates'', JArr [JStr ''2025-01-01''])]"


text \<open>Two events on the same day, the later one first in the collection.\<close>

definition example_late_event :: jsobj where
  "example_late_event =
     [(''id'', JStr ''e5''), (''name'', JStr ''Dinner''), (''date'', JStr ''2025-02-05''),
      (''startDate'', JStr ''2025-02-05''), (''startTime'', JStr ''10:00''),
      (''recurrence'', JStr ''none'')]"

definition example_early_event :: jsobj where
  "example_early_event =
     [(''id'', JStr ''e6''), (''name'', JStr ''Breakfast''), (''date'', JStr ''2025-02-05''),
      (''startDate'', JStr ''2025-02-05''), (''startTime'', JStr ''09:00''),
      (''recurrence'', JStr ''none'')]"

definition example_db :: db where
  "example_db =
     \<lparr>events_col = [''e1'' \<mapsto> example_weekly_event, ''e3'' \<mapsto> example_single_event],
      tasks_col = [''t1'' \<mapsto> example_plain_task]\<rparr>"

section \<open>The year of a day\<close>

lemma div_lower: "0 < k \<Longrightarrow> k * (x div k) \<le> (x::int)"
  by (metis mult.commute div_mult_mod_eq add.commute le_add_same_cancel2 pos_mod_sign)

lemma div_upper: "0 < k \<Longrightarrow> (x::int) \<le> k * (x div k) + (k - 1)"
proof -
  assume k: "0 < k"
  have "x = k * (x div k) + x mod k" by simp
  moreover have "x mod k < k" using k by simp
  ultimately show ?thesis by linarith
qed

text \<open>The first day of a year is within a day and a half of the mean.\<close>

lemma DayFromYear_lower: "146097 * y - 287811596 \<le> 400 * DayFromYear y"
proof -
  have "y - 1969 \<le> 4 * ((y - 1969) div 4) + 3"
    using div_upper [of 4 "y - 1969"] by simp
  moreover have "100 * ((y - 1901) div 100) \<le> y - 1901"
    using div_lower [of 100 "y - 1901"] by simp
  moreover have "y - 1601 \<le> 400 * ((y - 1601) div 400) + 399"
    using div_upper [of 400 "y - 1601"] by simp
  ultimately show ?thesis by (simp add: DayFromYear_def algebra_simps)
qed

lemma DayFromYear_upper: "400 * DayFromYear y \<le> 146097 * y - 287810501"
proof -
  have "4 * ((y - 1969) div 4) \<le> y - 1969"
    using div_lower [of 4 "y - 1969"] by simp
  moreover have "y - 1901 \<le> 100 * ((y - 1901) div 100) + 99"
    using div_upper [of 100 "y - 1901"] by simp
  moreover have "400 * ((y - 1601) div 400) \<le> y - 1601"
    using div_lower [of 400 "y - 1601"] by simp
  ultimately show ?thesis by (simp add: DayFromYear_def algebra_simps)
qed

lemma YearFromDay_lower: "DayFromYear (YearFromDay d) \<le> d"
proof -
  define q where "q = (400 * d) div 146097"
  have q1: "146097 * q \<le> 400 * d"
    unfolding q_def using div_lower [of 146097 "400 * d"] by simp
  have "400 * DayFromYear (1969 + q) \<le> 146097 * q - 145508"
    using DayFromYear_upper [of "1969 + q"] by simp
  then have "DayFromYear (1969 + q) \<le> d"
    using q1 by linarith
  then show ?thesis
    unfolding YearFromDay_def Let_def q_def [symmetric] by (simp add: not_less)
qed

lemma YearFromDay_upper: "d < DayFromYear (YearFromDay d + 1)"
proof -
  define q where "q = (400 * d) div 146097"
  have q2: "400 * d \<le> 146097 * q + 146096"
    unfolding q_def using div_upper [of 146097 "400 * d"] by simp
  have "146097 * q + 146098 \<le> 400 * DayFromYear (1972 + q)"
    using DayFromYear_lower [of "1972 + q"] by simp
  then have "d < DayFromYear (1972 + q)"
    using q2 by linarith
  then show ?thesis
    unfolding YearFromDay_def Let_def q_def [symmetric] by (simp add: not_less)
qed

lemma div_Suc_step:
  assumes k: "1 < k"
  shows "((x::int) + 1) div k = x div k + (if (x + 1) mod k = 0 then 1 else 0)"
proof -
  define q r where "q = x div k" and "r = x mod k"
  have r: "0 \<le> r" "r < k" using k by (simp_all add: r_def)
  have x: "x = k * q + r" by (simp add: q_def r_def)
  show ?thesis
  proof (cases "r + 1 = k")
    case True
    then have e: "x + 1 = k * (q + 1) + 0" using x by (simp add: algebra_simps)
    have "(x + 1) div k = q + 1" using int_div_pos_eq [OF e] k by simp
    moreover have "(x + 1) mod k = 0" using int_mod_pos_eq [OF e] k by simp
    ultimately show ?thesis by (simp add: q_def)
  next
    case False
    then have r1: "0 \<le> r + 1" "r + 1 < k" using r by simp_all
    have e: "x + 1 = k * q + (r + 1)" using x by simp
    have "(x + 1) div k = q" using int_div_pos_eq [OF e r1] .
    moreover have "(x + 1) mod k = r + 1" using int_mod_pos_eq [OF e r1] .
    ultimately show ?thesis using r by (simp add: q_def)
  qed
qed

lemma mod_shift: "((y::int) - k * c) mod k = y mod k"
  using mod_mult_self2 [of y k "- c"] by simp

lemma mod_divides:
  assumes "(y::int) mod a = 0" and "b dvd a"
  shows "y mod b = 0"
proof -
  have "a dvd y" using assms(1) by (simp add: dvd_eq_mod_eq_0)
  with assms(2) have "b dvd y" by (rule dvd_trans)
  then show ?thesis by (simp add: dvd_eq_mod_eq_0)
qed

lemma DayFromYear_Suc: "DayFromYear (y + 1) = DayFromYear y + DaysInYear y"
proof -
  have m4: "(y - 1969 + 1) mod 4 = y mod 4" using mod_shift [of y 4 492] by simp
  have m100: "(y - 1901 + 1) mod 100 = y mod 100" using mod_shift [of y 100 19] by simp
  have m400: "(y - 1601 + 1) mod 400 = y mod 400" using mod_shift [of y 400 4] by simp
  have a: "(y + 1 - 1969) div 4 = (y - 1969) div 4 + (if y mod 4 = 0 then 1 else 0)"
    using div_Suc_step [of 4 "y - 1969"] m4 by (simp add: algebra_simps)
  have b: "(y + 1 - 1901) div 100 = (y - 1901) div 100 + (if y mod 100 = 0 then 1 else 0)"
    using div_Suc_step [of 100 "y - 1901"] m100 by (simp add: algebra_simps)
  have c: "(y + 1 - 1601) div 400 = (y - 1601) div 400 + (if y mod 400 = 0 then 1 else 0)"
    using div_Suc_step [of 400 "y - 1601"] m400 by (simp add: algebra_simps)
  have d100: "y mod 100 = 0 \<Longrightarrow> y mod 4 = 0"
    by (rule mod_divides [of y 100 4]) simp_all
  have d400: "y mod 400 = 0 \<Longrightarrow> y mod 100 = 0"
    by (rule mod_divides [of y 400 100]) simp_all
  show ?thesis
    unfolding DayFromYear_def DaysInYear_def a b c using d100 d400 by auto
qed

lemma DaysInYear_cases: "DaysInYear y = 365 \<or> DaysInYear y = 366"
  by (simp add: DaysInYear_def)

lemma leap_flag_cases: "leap_flag y = 0 \<or> leap_flag y = 1"
  by (simp add: leap_flag_def)

lemma DaysInYear_leap_flag: "DaysInYear y = 365 + leap_flag y"
  using DaysInYear_cases [of y] by (auto simp: leap_flag_def)

lemma DayFromYear_less_Suc: "DayFromYear y < DayFromYear (y + 1)"
  using DaysInYear_cases [of y] by (auto simp: DayFromYear_Suc)

lemma DayFromYear_mono_nat: "DayFromYear y \<le> DayFromYear (y + int n)"
proof (induction n)
  case 0
  then show ?case by simp
next
  case (Suc n)
  have "DayFromYear (y + int n) < DayFromYear (y + int n + 1)"
    by (rule DayFromYear_less_Suc)
  moreover have "y + int (Suc n) = y + int n + 1" by simp
  ultimately have "DayFromYear (y + int n) < DayFromYear (y + int (Suc n))" by metis
  with Suc show ?case by linarith
qed

lemma DayFromYear_mono: "y \<le> z \<Longrightarrow> DayFromYear y \<le> DayFromYear z"
  using DayFromYear_mono_nat [of y "nat (z - y)"] by simp

text \<open>
  \<open>YearFromDay d\<close> is the one year that contains day \<open>d\<close>, hence the largest year that
  begins on or before it.
\<close>

lemma YearFromDay_unique:
  assumes lo: "DayFromYear y \<le> d" and hi: "d < DayFromYear (y + 1)"
  shows "YearFromDay d = y"
proof (rule ccontr)
  assume ne: "YearFromDay d \<noteq> y"
  show False
  proof (cases "YearFromDay d < y")
    case True
    then have "DayFromYear (YearFromDay d + 1) \<le> DayFromYear y"
      by (intro DayFromYear_mono) simp
    with lo YearFromDay_upper [of d] show False by linarith
  next
    case False
    with ne have "DayFromYear (y + 1) \<le> DayFromYear (YearFromDay d)"
      by (intro DayFromYear_mono) simp
    with hi YearFromDay_lower [of d] show False by linarith
  qed
qed

section \<open>Months and days of the month\<close>

lemma month_cases:
  "0 \<le> m \<Longrightarrow> m \<le> 11 \<Longrightarrow>
   (m::int) = 0 \<or> m = 1 \<or> m = 2 \<or> m = 3 \<or> m = 4 \<or> m = 5 \<or> m = 6 \<or> m = 7 \<or> m = 8
     \<or> m = 9 \<or> m = 10 \<or> m = 11"
  by arith

lemma month_of_day_range: "0 \<le> month_of_day l d \<and> month_of_day l d \<le> 11"
  by (simp add: month_of_day_def)

text \<open>A day within the year that was built from a month and a day of that month is read back.\<close>

lemma decode_day:
  assumes l: "l = 0 \<or> l = 1" and m: "0 \<le> m" "m \<le> 11"
    and dd: "1 \<le> dd" "dd \<le> month_length l m"
  shows "month_of_day l (month_start l m + dd - 1) = m"
    and "date_of_day l (month_start l m + dd - 1) = dd"
proof -
  from month_cases [OF m]
  have "month_of_day l (month_start l m + dd - 1) = m
      \<and> date_of_day l (month_start l m + dd - 1) = dd"
    using l dd
    by (elim disjE)
      (simp_all add: month_of_day_def date_of_day_def month_start_def month_length_def)
  then show "month_of_day l (month_start l m + dd - 1) = m"
    and "date_of_day l (month_start l m + dd - 1) = dd" by simp_all
qed

lemma month_end_le_year:
  assumes l: "l = 0 \<or> l = 1" and m: "0 \<le> m" "m \<le> 11"
  shows "0 \<le> month_start l m" and "month_start l m + month_length l m \<le> 365 + l"
  using month_cases [OF m] l
  by (elim disjE; simp add: month_start_def month_length_def)+

text \<open>The month and the day read from a day within the year give that day back.\<close>

lemma encode_day:
  assumes l: "l = 0 \<or> l = 1" and d: "0 \<le> d" "d < 365 + l"
  shows "month_start l (month_of_day l d) + date_of_day l d - 1 = d"
    and "1 \<le> date_of_day l d"
    and "date_of_day l d \<le> month_length l (month_of_day l d)"
  using l d
  by (auto simp: month_of_day_def date_of_day_def month_start_def month_length_def)

lemma month_length_bounds:
  assumes "0 \<le> m" "m \<le> 11"
  shows "28 \<le> month_length (leap_flag y) m" "month_length (leap_flag y) m \<le> 31"
  using month_cases [OF assms] leap_flag_cases [of y]
  by (elim disjE; simp add: month_length_def month_start_def)+

lemma leap_flag_gregorian: "leap_flag y = (if gregorian_leap y then 1 else 0)"
proof -
  have "y mod 400 = 0 \<Longrightarrow> y mod 100 = 0" by (rule mod_divides [of y 400 100]) simp_all
  moreover have "y mod 100 = 0 \<Longrightarrow> y mod 4 = 0" by (rule mod_divides [of y 100 4]) simp_all
  ultimately show ?thesis
    by (auto simp: leap_flag_def DaysInYear_def gregorian_leap_def)
qed

lemma month_length_gregorian:
  assumes "0 \<le> m" "m \<le> 11"
  shows "month_length (leap_flag y) m = gregorian_days_in_month y m"
  using month_cases [OF assms]
  by (elim disjE)
    (simp_all add: month_length_def month_start_def gregorian_days_in_month_def
      leap_flag_gregorian)

section \<open>Time values and their fields\<close>

lemma Day_MakeDate:
  assumes "0 \<le> tod" "tod < msPerDay"
  shows "Day (MakeDate d tod) = d" and "TimeWithinDay (MakeDate d tod) = tod"
proof -
  have e: "MakeDate d tod = msPerDay * d + tod" by (simp add: MakeDate_def)
  show "Day (MakeDate d tod) = d"
    unfolding Day_def using int_div_pos_eq [OF e assms] .
  show "TimeWithinDay (MakeDate d tod) = tod"
    unfolding TimeWithinDay_def using int_mod_pos_eq [OF e assms] .
qed

lemma MakeDate_Day: "MakeDate (Day t) (TimeWithinDay t) = t"
  by (simp add: MakeDate_def Day_def TimeWithinDay_def)

lemma TimeWithinDay_range: "0 \<le> TimeWithinDay t" "TimeWithinDay t < msPerDay"
  by (simp_all add: TimeWithinDay_def msPerDay_def)

lemma MakeDay_normal:
  assumes "0 \<le> m" "m \<le> 11"
  shows "MakeDay y m dd = DayFromYear y + month_start (leap_flag y) m + dd - 1"
proof -
  have "m div 12 = 0" "m mod 12 = m" using assms by simp_all
  then show ?thesis by (simp add: MakeDay_def)
qed

lemma MakeDay_carry: "MakeDay y m dd = MakeDay (y + m div 12) (m mod 12) dd"
proof -
  have "m mod 12 div 12 = 0" by simp
  then show ?thesis by (simp add: MakeDay_def)
qed

text \<open>
  A date given by a year, a month from 0 to 11, a day of that month and a time within the
  day is read back from its time value. With day 1 this is the property by which
  ECMAScript defines \<open>MakeDay\<close>.
\<close>

lemma decode_MakeDay:
  assumes m: "0 \<le> m" "m \<le> 11"
    and dd: "1 \<le> dd" "dd \<le> month_length (leap_flag y) m"
    and tod: "0 \<le> tod" "tod < msPerDay"
  shows "YearFromTime (MakeDate (MakeDay y m dd) tod) = y"
    and "MonthFromTime (MakeDate (MakeDay y m dd) tod) = m"
    and "DateFromTime (MakeDate (MakeDay y m dd) tod) = dd"
    and "TimeWithinDay (MakeDate (MakeDay y m dd) tod) = tod"
proof -
  let ?l = "leap_flag y" and ?t = "MakeDate (MakeDay y m dd) tod"
  have l: "?l = 0 \<or> ?l = 1" by (rule leap_flag_cases)
  have day: "Day ?t = DayFromYear y + month_start ?l m + dd - 1"
    using Day_MakeDate(1) [OF tod] MakeDay_normal [OF m] by simp
  have lo: "0 \<le> month_start ?l m" and hi: "month_start ?l m + month_length ?l m \<le> 365 + ?l"
    using month_end_le_year [OF l m] by simp_all
  have "DayFromYear y \<le> Day ?t" using day lo dd by linarith
  moreover have "Day ?t < DayFromYear (y + 1)"
    using day hi dd by (simp add: DayFromYear_Suc DaysInYear_leap_flag)
  ultimately show y: "YearFromTime ?t = y"
    unfolding YearFromTime_def by (rule YearFromDay_unique)
  have dwy: "DayWithinYear ?t = month_start ?l m + dd - 1"
    by (simp add: DayWithinYear_def y day)
  show "MonthFromTime ?t = m"
    by (simp add: MonthFromTime_def InLeapYear_def y dwy decode_day(1) [OF l m dd])
  show "DateFromTime ?t = dd"
    by (simp add: DateFromTime_def InLeapYear_def y dwy decode_day(2) [OF l m dd])
  show "TimeWithinDay ?t = tod"
    by (rule Day_MakeDate(2) [OF tod])
qed

lemma DayWithinYear_range:
  "0 \<le> DayWithinYear t" "DayWithinYear t < 365 + InLeapYear t"
proof -
  show "0 \<le> DayWithinYear t"
    using YearFromDay_lower [of "Day t"] by (simp add: DayWithinYear_def YearFromTime_def)
  show "DayWithinYear t < 365 + InLeapYear t"
    using YearFromDay_upper [of "Day t"]
    by (simp add: DayWithinYear_def YearFromTime_def InLeapYear_def DayFromYear_Suc
        DaysInYear_leap_flag)
qed

lemma MonthFromTime_range: "0 \<le> MonthFromTime t" "MonthFromTime t \<le> 11"
  using month_of_day_range by (simp_all add: MonthFromTime_def)

lemma DateFromTime_range:
  "1 \<le> DateFromTime t"
  "DateFromTime t \<le> month_length (leap_flag (YearFromTime t)) (MonthFromTime t)"
  using encode_day(2,3) [OF leap_flag_cases DayWithinYear_range [unfolded InLeapYear_def]]
  by (simp_all add: DateFromTime_def MonthFromTime_def InLeapYear_def)

lemma DateFromTime_le_31: "DateFromTime t \<le> 31"
  using DateFromTime_range(2) [of t] month_length_bounds(2) [OF MonthFromTime_range, of _ t]
  by (rule order_trans)

text \<open>The fields read from a time value build the same time value again.\<close>

lemma encode_fields:
  "MakeDate (MakeDay (YearFromTime t) (MonthFromTime t) (DateFromTime t)) (TimeWithinDay t) = t"
proof -
  have "month_start (InLeapYear t) (MonthFromTime t) + DateFromTime t - 1 = DayWithinYear t"
    using encode_day(1) [OF leap_flag_cases DayWithinYear_range [unfolded InLeapYear_def]]
    by (simp add: DateFromTime_def MonthFromTime_def InLeapYear_def)
  then have "MakeDay (YearFromTime t) (MonthFromTime t) (DateFromTime t) = Day t"
    using MakeDay_normal [OF MonthFromTime_range]
    by (simp add: DayWithinYear_def InLeapYear_def)
  then show ?thesis by (simp add: MakeDate_Day)
qed

lemma MakeDay_in_year:
  assumes m: "0 \<le> m" "m \<le> 11" and dd: "1 \<le> dd" "dd \<le> month_length (leap_flag y) m"
  shows "DayFromYear y \<le> MakeDay y m dd" "MakeDay y m dd < DayFromYear (y + 1)"
proof -
  have l: "leap_flag y = 0 \<or> leap_flag y = 1" by (rule leap_flag_cases)
  show "DayFromYear y \<le> MakeDay y m dd"
    using month_end_le_year(1) [OF l m] dd by (simp add: MakeDay_normal [OF m])
  show "MakeDay y m dd < DayFromYear (y + 1)"
    using month_end_le_year(2) [OF l m] dd
    by (simp add: MakeDay_normal [OF m] DayFromYear_Suc DaysInYear_leap_flag)
qed

text \<open>Day 0 of the following month is the last day of the month.\<close>

lemma MakeDay_day0:
  assumes m: "0 \<le> m" "m \<le> 11"
  shows "MakeDay y (m + 1) 0 = MakeDay y m (month_length (leap_flag y) m)"
proof (cases "m = 11")
  case True
  have "MakeDay y 12 0 = DayFromYear (y + 1) - 1"
    by (simp add: MakeDay_def month_start_def)
  also have "\<dots> = DayFromYear y + 365 + leap_flag y - 1"
    by (simp add: DayFromYear_Suc DaysInYear_leap_flag)
  also have "\<dots> = MakeDay y 11 31"
    by (simp add: MakeDay_def month_start_def)
  finally show ?thesis using True by (simp add: month_length_def)
next
  case False
  then have m1: "0 \<le> m + 1" "m + 1 \<le> 11" using m by simp_all
  show ?thesis
    using False by (simp add: MakeDay_normal [OF m1] MakeDay_normal [OF m] month_length_def)
qed

text \<open>A day beyond the end of its month is read back with another day of the month.\<close>

lemma overflow_changes_date:
  assumes m: "0 \<le> m" "m \<le> 11" and dd: "1 \<le> dd" "dd \<le> 31"
    and tod: "0 \<le> tod" "tod < msPerDay"
    and same: "DateFromTime (MakeDate (MakeDay y m dd) tod) = dd"
  shows "dd \<le> month_length (leap_flag y) m"
proof (rule ccontr)
  let ?l = "leap_flag y"
  let ?n = "month_length ?l m"
  assume "\<not> dd \<le> ?n"
  then have over: "?n < dd" by simp
  have n: "28 \<le> ?n" by (rule month_length_bounds(1) [OF m])
  have "m \<noteq> 11" using over dd by (auto simp: month_length_def)
  then have m1: "0 \<le> m + 1" "m + 1 \<le> 11" using m by simp_all
  have len: "?n = month_start ?l (m + 1) - month_start ?l m"
    using \<open>m \<noteq> 11\<close> by (simp add: month_length_def)
  have r: "1 \<le> dd - ?n" "dd - ?n \<le> month_length ?l (m + 1)"
    using over dd n month_length_bounds(1) [OF m1, of y] by linarith+
  have "MakeDay y m dd = MakeDay y (m + 1) (dd - ?n)"
    by (simp add: MakeDay_normal [OF m] MakeDay_normal [OF m1] len)
  then have "DateFromTime (MakeDate (MakeDay y m dd) tod) = dd - ?n"
    using decode_MakeDay(3) [OF m1 r tod] by simp
  with same n show False by simp
qed

lemma TimeClip_Some: "TimeClip t = Some u \<Longrightarrow> u = t \<and> \<bar>t\<bar> \<le> 8640000000000000"
  by (auto simp: TimeClip_def split: if_splits)

lemma TimeClip_valid: "\<bar>t\<bar> \<le> 8640000000000000 \<Longrightarrow> TimeClip t = Some t"
  by (simp add: TimeClip_def)

lemma is_Date_Some: "is_Date (Some t) \<longleftrightarrow> \<bar>t\<bar> \<le> 8640000000000000"
  by (auto simp: is_Date_def Date_copy_def TimeClip_def)

lemma year_range_days:
  assumes "- 271820 \<le> y" "y \<le> 275759"
  shows "- 99999999 \<le> DayFromYear y" "DayFromYear (y + 1) \<le> 99999999"
proof -
  show "- 99999999 \<le> DayFromYear y"
    using DayFromYear_lower [of y] assms by linarith
  have "400 * DayFromYear (y + 1) \<le> 146097 * y - 287664404"
    using DayFromYear_upper [of "y + 1"] by (simp add: algebra_simps)
  then show "DayFromYear (y + 1) \<le> 99999999"
    using assms by linarith
qed

text \<open>
  A local midnight at most 99999999 days from the epoch is inside the range of the date
  object in every zone whose offset there is at most a day.
\<close>

lemma TimeClip_local_day:
  assumes "- 99999999 \<le> d" "d \<le> 99999999" and "\<bar>z (MakeDate d 0) False\<bar> \<le> msPerDay"
  shows "TimeClip (UTC z (MakeDate d 0)) = Some (UTC z (MakeDate d 0))"
  using assms by (simp add: TimeClip_def UTC_def MakeDate_def msPerDay_def)

text \<open>A zone with a fixed offset has every local time and keeps every time value.\<close>

lemma fixed_zone: "zone_has (\<lambda>t isUTC. c) l" "zone_keeps (\<lambda>t isUTC. c) t"
  by (simp_all add: zone_has_def zone_keeps_def LocalTime_def UTC_def)

section \<open>Days in a month\<close>

lemma leap_flag_two_digit:
  assumes "1 \<le> y" "y \<le> 99"
  shows "leap_flag (1900 + y) = leap_flag y"
proof -
  have a: "(1900 + y) mod 4 = y mod 4"
    using mod_mult_self2 [of y 4 475] by (simp add: add.commute)
  have b: "(1900 + y) mod 100 = y mod 100"
    using mod_mult_self2 [of y 100 19] by (simp add: add.commute)
  have c: "y mod 100 = y" using assms by simp
  show ?thesis
    using assms by (simp add: leap_flag_def DaysInYear_def a b c)
qed

lemma daysInMonth_full_year:
  assumes y: "- 271820 \<le> y" "y \<le> 275759" and m: "0 \<le> m" "m \<le> 11"
    and off: "\<bar>z (MakeDate (MakeDay y (m + 1) 0) 0) False\<bar> \<le> msPerDay"
    and has: "zone_has z (MakeDate (MakeDay y (m + 1) 0) 0)"
  shows "getDate z (TimeClip (UTC z (MakeDate (MakeDay y (m + 1) 0) 0)))
       = Some (month_length (leap_flag y) m)"
proof -
  let ?n = "month_length (leap_flag y) m"
  let ?l = "MakeDate (MakeDay y (m + 1) 0) 0"
  have n: "1 \<le> ?n" "?n \<le> month_length (leap_flag y) m"
    using month_length_bounds(1) [OF m, of y] by simp_all
  have d: "MakeDay y (m + 1) 0 = MakeDay y m ?n" by (rule MakeDay_day0 [OF m])
  have "- 99999999 \<le> MakeDay y m ?n" "MakeDay y m ?n \<le> 99999999"
    using MakeDay_in_year [OF m n] year_range_days [OF y] by linarith+
  then have "- 99999999 \<le> MakeDay y (m + 1) 0" "MakeDay y (m + 1) 0 \<le> 99999999"
    by (simp_all add: d)
  then have clip: "TimeClip (UTC z ?l) = Some (UTC z ?l)"
    using off by (rule TimeClip_local_day)
  have ret: "LocalTime z (UTC z ?l) = ?l"
    using has by (simp add: zone_has_def)
  have "DateFromTime (MakeDate (MakeDay y m ?n) 0) = ?n"
    by (rule decode_MakeDay(3) [OF m n]) (simp_all add: msPerDay_def)
  then have "DateFromTime ?l = ?n" by (simp add: d)
  then show ?thesis by (simp add: clip getDate_def ret)
qed

lemma daysInMonth_zone:
  assumes "year \<noteq> 0" and "- 271820 \<le> year" and "year \<le> 275759"
    and "0 \<le> month" and "month \<le> 11"
    and off: "\<bar>z (month_end_local year month) False\<bar> \<le> msPerDay"
    and has: "zone_has z (month_end_local year month)"
  shows "daysInMonth z year month = Some (gregorian_days_in_month year month)"
proof (cases "1 \<le> year \<and> year \<le> 99")
  case True
  then have y: "- 271820 \<le> 1900 + year" "1900 + year \<le> 275759" by simp_all
  have full: "MakeFullYear year = 1900 + year" using True by (simp add: MakeFullYear_def)
  have "daysInMonth z year month = Some (month_length (leap_flag (1900 + year)) month)"
    using daysInMonth_full_year [OF y assms(4,5), of z] off has
    by (simp add: daysInMonth_def Date_ymd_def month_end_local_def full)
  also have "leap_flag (1900 + year) = leap_flag year"
    using True by (intro leap_flag_two_digit) simp_all
  finally show ?thesis by (simp add: month_length_gregorian [OF assms(4,5)])
next
  case False
  then have full: "MakeFullYear year = year" using assms(1) by (auto simp: MakeFullYear_def)
  have "daysInMonth z year month = Some (month_length (leap_flag year) month)"
    using daysInMonth_full_year [OF assms(2,3,4,5), of z] off has
    by (simp add: daysInMonth_def Date_ymd_def month_end_local_def full)
  then show ?thesis by (simp add: month_length_gregorian [OF assms(4,5)])
qed

text \<open>
  Claim C7, as the code has it. For every year other than 0 from -271820 to 275759, the
  years whose months all lie in the range of the date object, and every month from 0 to
  11, \<open>daysInMonth year month\<close> is the number of days of that month in the Gregorian
  calendar, February having 29 days exactly in the years divisible by 4 and not by 100
  unless by 400: on a host in the zone UTC, and on every host whose zone has the local
  midnight of the last day of the month, with an offset of at most a day there. In
  particular \<open>daysInMonth 2024 1\<close> is 29 and \<open>daysInMonth 2023 1\<close> is 28.
\<close>

theorem daysInMonth_gregorian:
  assumes "year \<noteq> 0" and "- 271820 \<le> year" and "year \<le> 275759"
    and "0 \<le> month" and "month \<le> 11"
  shows "daysInMonth utc_zone year month = Some (gregorian_days_in_month year month)
       \<and> (\<bar>z (month_end_local year month) False\<bar> \<le> msPerDay
            \<and> zone_has z (month_end_local year month) \<longrightarrow>
          daysInMonth z year month = Some (gregorian_days_in_month year month))"
proof -
  have "\<bar>utc_zone (month_end_local year month) False\<bar> \<le> msPerDay"
    by (simp add: utc_zone_def msPerDay_def)
  moreover have "zone_has utc_zone (month_end_local year month)"
    unfolding utc_zone_def by (rule fixed_zone(1))
  ultimately have "daysInMonth utc_zone year month = Some (gregorian_days_in_month year month)"
    by (rule daysInMonth_zone [OF assms])
  then show ?thesis
    using daysInMonth_zone [OF assms, of z] by simp
qed

text \<open>
  The two values that claim C7 names, on a host in UTC, and February 2025 on the host in
  New York, obtained from the theorem.
\<close>

theorem daysInMonth_gregorian_witness:
  "(2024::int) \<noteq> 0 \<and> (2023::int) \<noteq> 0 \<and> (0::int) \<le> 1 \<and> (1::int) \<le> 11
   \<and> daysInMonth utc_zone 2024 1 = Some 29 \<and> daysInMonth utc_zone 2023 1 = Some 28
   \<and> \<bar>new_york_2025 (month_end_local 2025 1) False\<bar> \<le> msPerDay
   \<and> zone_has new_york_2025 (month_end_local 2025 1)
   \<and> daysInMonth new_york_2025 2025 1 = Some 28"
proof -
  have a: "\<bar>new_york_2025 (month_end_local 2025 1) False\<bar> \<le> msPerDay" by code_simp
  have b: "zone_has new_york_2025 (month_end_local 2025 1)" by code_simp
  show ?thesis
    using a b daysInMonth_gregorian [of 2024 1] daysInMonth_gregorian [of 2023 1]
      daysInMonth_gregorian [of 2025 1 new_york_2025]
    by (simp add: gregorian_days_in_month_def gregorian_leap_def)
qed

text \<open>
  Claim C7 as it is stated, for every year, fails at year 0: the date constructor reads
  the year 0 as 1900, which has no 29 February, while the year 0 is divisible by 400.
  \<open>daysInMonth 0 1\<close> is 28.
\<close>

theorem daysInMonth_year_zero:
  "daysInMonth utc_zone 0 1 = Some 28 \<and> gregorian_days_in_month 0 1 = 29
   \<and> daysInMonth utc_zone 0 1 \<noteq> Some (gregorian_days_in_month 0 1)"
  by code_simp

section \<open>Stepping the calendar\<close>

text \<open>
  Claim C4 says that a step by months or years clamps the day of the month to the last day
  of the month reached. The code calls \<^verbatim>\<open>setMonth\<close> and \<^verbatim>\<open>setFullYear\<close>, which carry
  the days beyond the end of the month into the following month: one month after
  2025-01-31 is 2025-03-03, not 2025-02-28, and one year after 2024-02-29 is 2025-03-01,
  not 2025-02-28. The host in New York steps from 31 January 2025 to 3 March as well.
\<close>

theorem step_rolls_over:
  "changeCalendarMonth utc_zone 1 (Date_ymd utc_zone 2025 0 31) = Date_ymd utc_zone 2025 2 3
   \<and> getMonth utc_zone (changeCalendarMonth utc_zone 1 (Date_ymd utc_zone 2025 0 31)) = Some 2
   \<and> getDate utc_zone (changeCalendarMonth utc_zone 1 (Date_ymd utc_zone 2025 0 31)) = Some 3
   \<and> changeCalendarYear utc_zone 1 (Date_ymd utc_zone 2024 1 29) = Date_ymd utc_zone 2025 2 1
   \<and> getMonth utc_zone (changeCalendarYear utc_zone 1 (Date_ymd utc_zone 2024 1 29)) = Some 2
   \<and> getDate utc_zone (changeCalendarYear utc_zone 1 (Date_ymd utc_zone 2024 1 29)) = Some 1
   \<and> getMonth new_york_2025
        (changeCalendarMonth new_york_2025 1 (Date_ymd new_york_2025 2025 0 31)) = Some 2
   \<and> getDate new_york_2025
        (changeCalendarMonth new_york_2025 1 (Date_ymd new_york_2025 2025 0 31)) = Some 3"
  by code_simp

lemma changeCalendarMonth_Some:
  assumes "is_Date (Some t)"
  shows "changeCalendarMonth z k (Some t)
           = TimeClip (UTC z (month_step_local k (LocalTime z t)))"
  using assms
  by (simp add: changeCalendarMonth_def is_Date_def setMonth_def getMonth_def
      month_step_local_def Let_def)

lemma changeCalendarYear_Some:
  assumes "is_Date (Some t)"
  shows "changeCalendarYear z k (Some t)
           = TimeClip (UTC z (year_step_local k (LocalTime z t)))"
  using assms
  by (simp add: changeCalendarYear_def is_Date_def setFullYear_def getFullYear_def
      year_step_local_def Let_def)

lemma changeCalendar_None:
  "changeCalendarMonth z k None = None" "changeCalendarYear z k None = None"
  by (simp_all add: changeCalendarMonth_def changeCalendarYear_def Date_copy_def setMonth_def
      setFullYear_def getMonth_def getFullYear_def)

lemma month_back:
  fixes m k :: int
  assumes "0 \<le> m" "m \<le> 11"
  shows "(m + k) div 12 + ((m + k) mod 12 - k) div 12 = 0"
    and "((m + k) mod 12 - k) mod 12 = m"
proof -
  define q where "q = (m + k) div 12"
  have e: "(m + k) mod 12 - k = 12 * (- q) + m"
    unfolding q_def using div_mult_mod_eq [of "m + k" 12] by linarith
  have lt: "m < 12" using assms by simp
  have "((m + k) mod 12 - k) div 12 = - q" using int_div_pos_eq [OF e assms(1) lt] .
  then show "(m + k) div 12 + ((m + k) mod 12 - k) div 12 = 0" by (simp add: q_def)
  show "((m + k) mod 12 - k) mod 12 = m" using int_mod_pos_eq [OF e assms(1) lt] .
qed

text \<open>
  On local times: a month step that keeps the day of the month is undone by the opposite
  step, and so is a year step.
\<close>

lemma month_step_local_back:
  assumes same: "DateFromTime (month_step_local k l) = DateFromTime l"
  shows "month_step_local (- k) (month_step_local k l) = l"
proof -
  let ?y = "YearFromTime l" and ?m = "MonthFromTime l" and ?dd = "DateFromTime l"
  let ?tod = "TimeWithinDay l"
  let ?y2 = "?y + (?m + k) div 12" and ?m2 = "(?m + k) mod 12"
  have m: "0 \<le> ?m" "?m \<le> 11" by (rule MonthFromTime_range)+
  have m2: "0 \<le> ?m2" "?m2 \<le> 11" by simp_all
  have dd: "1 \<le> ?dd" "?dd \<le> 31" by (rule DateFromTime_range(1), rule DateFromTime_le_31)
  have tod: "0 \<le> ?tod" "?tod < msPerDay" by (rule TimeWithinDay_range)+
  have carry: "MakeDay ?y (?m + k) ?dd = MakeDay ?y2 ?m2 ?dd" by (rule MakeDay_carry)
  have step: "month_step_local k l = MakeDate (MakeDay ?y2 ?m2 ?dd) ?tod"
    by (simp add: month_step_local_def carry)
  have "DateFromTime (MakeDate (MakeDay ?y2 ?m2 ?dd) ?tod) = ?dd"
    using same by (simp add: step)
  then have fits: "?dd \<le> month_length (leap_flag ?y2) ?m2"
    by (rule overflow_changes_date [OF m2 dd tod])
  have dec: "YearFromTime (month_step_local k l) = ?y2"
    "MonthFromTime (month_step_local k l) = ?m2"
    "DateFromTime (month_step_local k l) = ?dd"
    "TimeWithinDay (month_step_local k l) = ?tod"
    using decode_MakeDay [OF m2 dd(1) fits tod] by (simp_all add: step)
  have "MakeDay ?y2 (?m2 - k) ?dd = MakeDay (?y2 + (?m2 - k) div 12) ((?m2 - k) mod 12) ?dd"
    by (rule MakeDay_carry)
  also have "\<dots> = MakeDay ?y ?m ?dd"
    using month_back [OF m, of k] by (simp add: add.assoc)
  finally have "month_step_local (- k) (month_step_local k l)
                  = MakeDate (MakeDay ?y ?m ?dd) ?tod"
    by (simp add: month_step_local_def [of "- k"] dec)
  then show ?thesis by (simp add: encode_fields)
qed

lemma year_step_local_back:
  assumes same: "DateFromTime (year_step_local k l) = DateFromTime l"
  shows "year_step_local (- k) (year_step_local k l) = l"
proof -
  let ?y = "YearFromTime l" and ?m = "MonthFromTime l" and ?dd = "DateFromTime l"
  let ?tod = "TimeWithinDay l"
  have m: "0 \<le> ?m" "?m \<le> 11" by (rule MonthFromTime_range)+
  have dd: "1 \<le> ?dd" "?dd \<le> 31" by (rule DateFromTime_range(1), rule DateFromTime_le_31)
  have tod: "0 \<le> ?tod" "?tod < msPerDay" by (rule TimeWithinDay_range)+
  have step: "year_step_local k l = MakeDate (MakeDay (?y + k) ?m ?dd) ?tod"
    by (simp add: year_step_local_def)
  have "DateFromTime (MakeDate (MakeDay (?y + k) ?m ?dd) ?tod) = ?dd"
    using same by (simp add: step)
  then have fits: "?dd \<le> month_length (leap_flag (?y + k)) ?m"
    by (rule overflow_changes_date [OF m dd tod])
  have dec: "YearFromTime (year_step_local k l) = ?y + k"
    "MonthFromTime (year_step_local k l) = ?m"
    "DateFromTime (year_step_local k l) = ?dd"
    "TimeWithinDay (year_step_local k l) = ?tod"
    using decode_MakeDay [OF m dd(1) fits tod] by (simp_all add: step)
  have "year_step_local (- k) (year_step_local k l) = MakeDate (MakeDay ?y ?m ?dd) ?tod"
    by (simp add: year_step_local_def [of "- k"] dec)
  then show ?thesis by (simp add: encode_fields)
qed

lemma month_roundtrip:
  assumes d: "is_Date (Some t)" and keeps: "zone_keeps z t"
    and has: "zone_has z (month_step_local k (LocalTime z t))"
    and same: "getDate z (changeCalendarMonth z k (Some t)) = getDate z (Some t)"
  shows "changeCalendarMonth z (- k) (changeCalendarMonth z k (Some t)) = Some t"
proof -
  let ?l = "LocalTime z t"
  let ?lf = "month_step_local k ?l"
  have fwd: "changeCalendarMonth z k (Some t) = TimeClip (UTC z ?lf)"
    by (rule changeCalendarMonth_Some [OF d])
  from same obtain u where u: "TimeClip (UTC z ?lf) = Some u"
    by (cases "TimeClip (UTC z ?lf)") (simp_all add: fwd getDate_def)
  then have uu: "u = UTC z ?lf" and valid: "is_Date (Some u)"
    using TimeClip_Some [OF u] by (simp_all add: is_Date_Some)
  have lu: "LocalTime z u = ?lf"
    using has by (simp add: uu zone_has_def)
  have "DateFromTime ?lf = DateFromTime ?l"
    using same by (simp add: fwd u getDate_def lu)
  then have ret: "month_step_local (- k) ?lf = ?l"
    by (rule month_step_local_back)
  have "changeCalendarMonth z (- k) (Some u) = TimeClip (UTC z ?l)"
    by (simp add: changeCalendarMonth_Some [OF valid] lu ret)
  also have "\<dots> = Some t"
    using d keeps by (simp add: zone_keeps_def is_Date_Some TimeClip_valid)
  finally show ?thesis by (simp add: fwd u)
qed

lemma year_roundtrip:
  assumes d: "is_Date (Some t)" and keeps: "zone_keeps z t"
    and has: "zone_has z (year_step_local k (LocalTime z t))"
    and same: "getDate z (changeCalendarYear z k (Some t)) = getDate z (Some t)"
  shows "changeCalendarYear z (- k) (changeCalendarYear z k (Some t)) = Some t"
proof -
  let ?l = "LocalTime z t"
  let ?lf = "year_step_local k ?l"
  have fwd: "changeCalendarYear z k (Some t) = TimeClip (UTC z ?lf)"
    by (rule changeCalendarYear_Some [OF d])
  from same obtain u where u: "TimeClip (UTC z ?lf) = Some u"
    by (cases "TimeClip (UTC z ?lf)") (simp_all add: fwd getDate_def)
  then have uu: "u = UTC z ?lf" and valid: "is_Date (Some u)"
    using TimeClip_Some [OF u] by (simp_all add: is_Date_Some)
  have lu: "LocalTime z u = ?lf"
    using has by (simp add: uu zone_has_def)
  have "DateFromTime ?lf = DateFromTime ?l"
    using same by (simp add: fwd u getDate_def lu)
  then have ret: "year_step_local (- k) ?lf = ?l"
    by (rule year_step_local_back)
  have "changeCalendarYear z (- k) (Some u) = TimeClip (UTC z ?l)"
    by (simp add: changeCalendarYear_Some [OF valid] lu ret)
  also have "\<dots> = Some t"
    using d keeps by (simp add: zone_keeps_def is_Date_Some TimeClip_valid)
  finally show ?thesis by (simp add: fwd u)
qed

text \<open>
  Claim C9, as the code has it. Let \<open>t\<close> be the time value of a date object, in a host zone
  that keeps \<open>t\<close>. When the step by \<open>k\<close> months gives a date inside the range of the date
  object with the day of the month of \<open>t\<close>, and the zone has the local time that the step
  builds, the step by \<open>- k\<close> months returns \<open>t\<close>; the same holds for steps by years. A
  zone with a fixed offset, UTC among them, keeps every time value and has every local
  time. An invalid date stays invalid under both steps.
\<close>

theorem step_roundtrip:
  assumes "is_Date (Some t)" and "zone_keeps z t"
  shows "(zone_has z (month_step_local k (LocalTime z t))
            \<and> getDate z (changeCalendarMonth z k (Some t)) = getDate z (Some t) \<longrightarrow>
          changeCalendarMonth z (- k) (changeCalendarMonth z k (Some t)) = Some t)
       \<and> (zone_has z (year_step_local k (LocalTime z t))
            \<and> getDate z (changeCalendarYear z k (Some t)) = getDate z (Some t) \<longrightarrow>
          changeCalendarYear z (- k) (changeCalendarYear z k (Some t)) = Some t)
       \<and> zone_keeps (\<lambda>t isUTC. c) t \<and> zone_has (\<lambda>t isUTC. c) l
       \<and> changeCalendarMonth z (- k) (changeCalendarMonth z k None) = None
       \<and> changeCalendarYear z (- k) (changeCalendarYear z k None) = None"
  using month_roundtrip [OF assms] year_roundtrip [OF assms] fixed_zone [of c]
  by (simp add: changeCalendar_None)

text \<open>
  The theorem on the host in New York at 2025-01-15 09:30 local time with a step of one
  month, and on a host in UTC at 2024-02-29 with a step of four years.
\<close>

theorem step_roundtrip_witness:
  "is_Date (Some 1736951400000) \<and> zone_keeps new_york_2025 1736951400000
   \<and> zone_has new_york_2025 (month_step_local 1 (LocalTime new_york_2025 1736951400000))
   \<and> getDate new_york_2025 (changeCalendarMonth new_york_2025 1 (Some 1736951400000))
        = getDate new_york_2025 (Some 1736951400000)
   \<and> changeCalendarMonth new_york_2025 (- 1)
        (changeCalendarMonth new_york_2025 1 (Some 1736951400000)) = Some 1736951400000
   \<and> is_Date (Some 1709164800000) \<and> zone_keeps utc_zone 1709164800000
   \<and> zone_has utc_zone (year_step_local 4 (LocalTime utc_zone 1709164800000))
   \<and> getDate utc_zone (changeCalendarYear utc_zone 4 (Some 1709164800000))
        = getDate utc_zone (Some 1709164800000)
   \<and> changeCalendarYear utc_zone (- 4)
        (changeCalendarYear utc_zone 4 (Some 1709164800000)) = Some 1709164800000"
proof -
  have a: "is_Date (Some 1736951400000)" "is_Date (Some 1709164800000)"
    by (simp_all add: is_Date_Some)
  have b: "zone_keeps new_york_2025 1736951400000" by code_simp
  have c: "zone_has new_york_2025 (month_step_local 1 (LocalTime new_york_2025 1736951400000))"
    by code_simp
  have e: "getDate new_york_2025 (changeCalendarMonth new_york_2025 1 (Some 1736951400000))
             = getDate new_york_2025 (Some 1736951400000)"
    by code_simp
  have f: "zone_keeps utc_zone 1709164800000" by code_simp
  have g: "zone_has utc_zone (year_step_local 4 (LocalTime utc_zone 1709164800000))"
    by code_simp
  have h: "getDate utc_zone (changeCalendarYear utc_zone 4 (Some 1709164800000))
             = getDate utc_zone (Some 1709164800000)"
    by code_simp
  show ?thesis
    using a b c e f g h
      step_roundtrip [OF a(1) b, of 1] step_roundtrip [OF a(2) f, of 4]
    by blast
qed

text \<open>
  Claim C9 as it is stated, with the steps that clamp as the only exception, fails in two
  ways. On the host in New York the date 2025-02-09 02:30 local time steps one month
  forward to a local time that the start of daylight saving skips, and comes back an hour
  later, with day 9 before and after the forward step. On a host in UTC, 4000000 months
  after 2025-01-15 is outside the range of the date object: the step gives an invalid
  date, and so does the step back.
\<close>

theorem step_roundtrip_fails:
  "is_Date (Some 1739086200000)
   \<and> getDate new_york_2025 (Some 1739086200000) = Some 9
   \<and> getDate new_york_2025 (changeCalendarMonth new_york_2025 1 (Some 1739086200000)) = Some 9
   \<and> changeCalendarMonth new_york_2025 (- 1)
        (changeCalendarMonth new_york_2025 1 (Some 1739086200000)) = Some 1739089800000
   \<and> Date_ymd utc_zone 2025 0 15 = Some 1736899200000
   \<and> changeCalendarMonth utc_zone 4000000 (Date_ymd utc_zone 2025 0 15) = None
   \<and> changeCalendarMonth utc_zone (- 4000000)
        (changeCalendarMonth utc_zone 4000000 (Date_ymd utc_zone 2025 0 15)) = None"
  by code_simp

section \<open>Occurrences of a month\<close>

text \<open>
  Claim C1 says that a weekly entity that starts on 2025-01-01 occurs on 2025-02-05,
  2025-02-12, 2025-02-19 and 2025-02-26. \<open>generateOccurrencesForMonth\<close> compares the
  \<^verbatim>\<open>date\<close> field of an event with the date string of each day and reads neither
  \<^verbatim>\<open>startDate\<close> nor \<^verbatim>\<open>recurrence\<close>: for that entity every one of the 28 days of
  February 2025 is empty, the four Wednesdays included.
\<close>

theorem weekly_not_expanded:
  "map snd (generateOccurrencesForMonth utc_zone 2025 1 [example_weekly_event] [])
     = replicate 28 []
   \<and> map_of (generateOccurrencesForMonth utc_zone 2025 1 [example_weekly_event] [])
        ''2025-02-05'' = Some []
   \<and> map_of (generateOccurrencesForMonth utc_zone 2025 1 [example_weekly_event] [])
        ''2025-02-12'' = Some []
   \<and> map_of (generateOccurrencesForMonth utc_zone 2025 1 [example_weekly_event] [])
        ''2025-02-19'' = Some []
   \<and> map_of (generateOccurrencesForMonth utc_zone 2025 1 [example_weekly_event] [])
        ''2025-02-26'' = Some []"
  by code_simp

text \<open>
  Claim C2 says that a monthly entity that starts on 2025-01-31 occurs on 2025-02-28, the
  day of the month clamped to the end of February. The code lists nothing for it on any
  day of February 2025, given as an event or as a task.
\<close>

theorem monthly_not_expanded:
  "map snd (generateOccurrencesForMonth utc_zone 2025 1 [example_monthly_event] [])
     = replicate 28 []
   \<and> map_of (generateOccurrencesForMonth utc_zone 2025 1 [example_monthly_event] [])
        ''2025-02-28'' = Some []
   \<and> map_of (generateOccurrencesForMonth utc_zone 2025 1 [] [example_monthly_event])
        ''2025-02-28'' = Some []"
  by code_simp

text \<open>
  Claim C6 says that the occurrences reach their consumers in ascending order of date and
  start time. \<open>generateOccurrencesForMonth\<close> keeps the order of the input arrays within a
  day: of two events on 2025-02-05, the one at 10:00 first in the collection, the one at
  10:00 is delivered before the one at 09:00.
\<close>

theorem day_list_in_input_order:
  "map_of
     (generateOccurrencesForMonth utc_zone 2025 1 [example_late_event, example_early_event] [])
     ''2025-02-05''
     = Some [spread [(''type'', JStr ''event'')] example_late_event,
             spread [(''type'', JStr ''event'')] example_early_event]
   \<and> map (\<lambda>occ. get_prop occ ''startTime'')
         (the (map_of
            (generateOccurrencesForMonth utc_zone 2025 1
               [example_late_event, example_early_event] [])
            ''2025-02-05''))
     = [JStr ''10:00'', JStr ''09:00'']"
  by code_simp


section \<open>Marking done\<close>

lemma get_prop_assign:
  "get_prop (assign k v obj) k' = (if k' = k then v else get_prop obj k')"
  by (induction obj) (auto simp: get_prop_def)

lemma get_prop_spread1:
  "get_prop (spread data [(a, x)]) k = (if k = a then x else get_prop data k)"
  by (simp add: spread_def get_prop_assign)

lemma get_prop_spread2:
  "get_prop (spread data [(a, x), (b, y)]) k =
     (if k = b then y else if k = a then x else get_prop data k)"
  by (simp add: spread_def get_prop_assign)

lemma collection_put: "collection_of ty (put_collection ty col d) = col"
  by (simp add: collection_of_def put_collection_def)

text \<open>The handler on a document that the store holds.\<close>

lemma handle_found:
  assumes "collection_of ty d ident = Some data"
  shows "handleMarkDoneClick now True ident ty occ d =
     (put_collection ty
        (if truthy (get_prop data ''recurrence'') \<and> get_prop data ''recurrence'' \<noteq> JStr ''none''
         then (if JStr occ \<notin> set (completed_dates data)
               then updateDoc (collection_of ty d) ident
                      [(''completedOccurrencesDates'', JArr (completed_dates data @ [JStr occ])),
                       (''updatedAt'', JStr now)]
               else collection_of ty d)
         else updateDoc (collection_of ty d) ident
                [(''isCompleted'', JBool True), (''updatedAt'', JStr now)]) d,
      [(capitalize ty @ '' occurrence marked as done!'', ToastSuccess)])"
  using assms by (simp add: handleMarkDoneClick_def Let_def)

lemma handle_found_doc:
  assumes "collection_of ty d ident = Some data"
  shows "collection_of ty (fst (handleMarkDoneClick now True ident ty occ d)) ident
           = Some (mark_done_doc now occ data)"
    and "snd (handleMarkDoneClick now True ident ty occ d)
           = [(capitalize ty @ '' occurrence marked as done!'', ToastSuccess)]"
  using assms
  by (simp_all add: handle_found [OF assms] mark_done_doc_def updateDoc_def collection_put)

lemma mark_done_doc_recurrence:
  "get_prop (mark_done_doc now occ data) ''recurrence'' = get_prop data ''recurrence''"
  by (simp add: mark_done_doc_def get_prop_spread2)

lemma mark_done_doc_dates:
  "set (completed_dates (mark_done_doc now occ data)) =
     (if truthy (get_prop data ''recurrence'') \<and> get_prop data ''recurrence'' \<noteq> JStr ''none''
      then set (completed_dates data) \<union> {JStr occ} else set (completed_dates data))"
  by (auto simp: mark_done_doc_def completed_dates_def get_prop_spread2)

lemma mark_done_doc_isCompleted:
  "get_prop (mark_done_doc now occ data) ''isCompleted'' =
     (if truthy (get_prop data ''recurrence'') \<and> get_prop data ''recurrence'' \<noteq> JStr ''none''
      then get_prop data ''isCompleted'' else JBool True)"
  by (simp add: mark_done_doc_def get_prop_spread2)

lemma mark_done_doc_idem:
  "completion_state (mark_done_doc now' occ (mark_done_doc now occ data))
     = completion_state (mark_done_doc now occ data)"
  by (auto simp: completion_state_def mark_done_doc_dates mark_done_doc_isCompleted
      mark_done_doc_recurrence)

text \<open>
  The handler of app.js on a stored entity: \<^verbatim>\<open>isCompleted: true\<close> when \<^verbatim>\<open>recurrence\<close>
  is \<^verbatim>\<open>'none'\<close>; the date added to the set of completed dates, \<^verbatim>\<open>isCompleted\<close> as it
  was, when \<^verbatim>\<open>recurrence\<close> is another, non-empty value; the same completion state and
  the same toast when the entity is marked for the same date a second time.
\<close>

lemma handleMarkDoneClick_completion_state:
  assumes "collection_of ty d ident = Some data"
  shows
    "(get_prop data ''recurrence'' = JStr ''none'' \<longrightarrow>
        collection_of ty (fst (handleMarkDoneClick now True ident ty occ d)) ident
          = Some (spread data [(''isCompleted'', JBool True), (''updatedAt'', JStr now)]))
     \<and> (truthy (get_prop data ''recurrence'') \<and> get_prop data ''recurrence'' \<noteq> JStr ''none'' \<longrightarrow>
        map_option completion_state
            (collection_of ty (fst (handleMarkDoneClick now True ident ty occ d)) ident)
          = Some (get_prop data ''isCompleted'', set (completed_dates data) \<union> {JStr occ}))
     \<and> map_option completion_state
          (collection_of ty
             (fst (handleMarkDoneClick now' True ident ty occ
                    (fst (handleMarkDoneClick now True ident ty occ d)))) ident)
        = map_option completion_state
            (collection_of ty (fst (handleMarkDoneClick now True ident ty occ d)) ident)
     \<and> snd (handleMarkDoneClick now True ident ty occ d)
        = [(capitalize ty @ '' occurrence marked as done!'', ToastSuccess)]
     \<and> snd (handleMarkDoneClick now' True ident ty occ
              (fst (handleMarkDoneClick now True ident ty occ d)))
        = [(capitalize ty @ '' occurrence marked as done!'', ToastSuccess)]"
proof -
  let ?d1 = "fst (handleMarkDoneClick now True ident ty occ d)"
  let ?doc1 = "mark_done_doc now occ data"
  have one: "collection_of ty ?d1 ident = Some ?doc1"
    by (rule handle_found_doc(1) [OF assms])
  have two: "collection_of ty (fst (handleMarkDoneClick now' True ident ty occ ?d1)) ident
               = Some (mark_done_doc now' occ ?doc1)"
    by (rule handle_found_doc(1) [OF one])
  have a: "get_prop data ''recurrence'' = JStr ''none'' \<longrightarrow>
        collection_of ty ?d1 ident
          = Some (spread data [(''isCompleted'', JBool True), (''updatedAt'', JStr now)])"
    by (simp add: one mark_done_doc_def)
  have b: "truthy (get_prop data ''recurrence'') \<and> get_prop data ''recurrence'' \<noteq> JStr ''none'' \<longrightarrow>
        map_option completion_state (collection_of ty ?d1 ident)
          = Some (get_prop data ''isCompleted'', set (completed_dates data) \<union> {JStr occ})"
    by (simp add: one completion_state_def mark_done_doc_dates mark_done_doc_isCompleted)
  have c: "map_option completion_state
             (collection_of ty (fst (handleMarkDoneClick now' True ident ty occ ?d1)) ident)
           = map_option completion_state (collection_of ty ?d1 ident)"
    by (simp add: one two mark_done_doc_idem)
  show ?thesis
    using a b c handle_found_doc(2) [OF assms] handle_found_doc(2) [OF one]
    by blast
qed

lemma today_is_5_february: "getTodayDateString utc_zone 1738746000000 = ''2025-02-05''"
  by code_simp

text \<open>
  Claim C3 says that marking an occurrence done writes \<^verbatim>\<open>isCompleted: true\<close> on an
  entity whose recurrence is \<^verbatim>\<open>'none'\<close> and adds the date to
  \<^verbatim>\<open>completedOccurrencesDates\<close> otherwise. \<open>handleMarkDoneClick\<close> does; the function
  \<open>markEventOccurrenceDone\<close> of the data service does neither. Called on 2025-02-05 for
  the single event of the example store, whose recurrence is \<^verbatim>\<open>'none'\<close>, it writes the
  date to \<^verbatim>\<open>completedOccurrences\<close> and leaves \<^verbatim>\<open>isCompleted\<close> false; called for the
  weekly event, it leaves the set of completed dates empty. Both calls toast success.
\<close>

theorem data_service_mark_done_misses_completion:
  "events_col example_db ''e3'' = Some example_single_event
   \<and> get_prop example_single_event ''recurrence'' = JStr ''none''
   \<and> events_col
       (fst (markEventOccurrenceDone utc_zone (JStr ''user-1'') 1738746000000 ''e3''
               example_db)) ''e3''
       = Some (spread example_single_event
                 [(''completedOccurrences'', JArr [JStr ''2025-02-05''])])
   \<and> map_option completion_state
       (events_col
          (fst (markEventOccurrenceDone utc_zone (JStr ''user-1'') 1738746000000 ''e3''
                  example_db)) ''e3'')
       = Some (JBool False, {})
   \<and> snd (markEventOccurrenceDone utc_zone (JStr ''user-1'') 1738746000000 ''e3'' example_db)
       = [(''Event occurrence marked as done!'', ToastSuccess)]
   \<and> events_col example_db ''e1'' = Some example_weekly_event
   \<and> get_prop example_weekly_event ''recurrence'' = JStr ''weekly''
   \<and> events_col
       (fst (markEventOccurrenceDone utc_zone (JStr ''user-1'') 1738746000000 ''e1''
               example_db)) ''e1''
       = Some (spread example_weekly_event
                 [(''completedOccurrences'', JArr [JStr ''2025-02-05''])])
   \<and> map_option completion_state
       (events_col
          (fst (markEventOccurrenceDone utc_zone (JStr ''user-1'') 1738746000000 ''e1''
                  example_db)) ''e1'')
       = Some (JBool False, {})
   \<and> snd (markEventOccurrenceDone utc_zone (JStr ''user-1'') 1738746000000 ''e1'' example_db)
       = [(''Event occurrence marked as done!'', ToastSuccess)]
   \<and> map_option completion_state
       (events_col
          (fst (handleMarkDoneClick ''2025-02-05T09:00:00.000Z'' True ''e3'' ''event''
                  ''2025-02-05'' example_db)) ''e3'')
       = Some (JBool True, {})
   \<and> map_option completion_state
       (events_col
          (fst (handleMarkDoneClick ''2025-02-05T09:00:00.000Z'' True ''e1'' ''event''
                  ''2025-02-05'' example_db)) ''e1'')
       = Some (JBool False, {JStr ''2025-02-05''})"
proof -
  have e3: "events_col example_db ''e3'' = Some example_single_event"
    and e1: "events_col example_db ''e1'' = Some example_weekly_event"
    by (simp_all add: example_db_def)
  have p3: "get_prop example_single_event ''recurrence'' = JStr ''none''"
    "get_prop example_single_event ''completedOccurrences'' = JUndefined"
    "get_prop example_single_event ''isCompleted'' = JBool False"
    "get_prop example_single_event ''completedOccurrencesDates'' = JUndefined"
    by (simp_all add: get_prop_def example_single_event_def)
  have p1: "get_prop example_weekly_event ''recurrence'' = JStr ''weekly''"
    "get_prop example_weekly_event ''completedOccurrences'' = JUndefined"
    "get_prop example_weekly_event ''isCompleted'' = JBool False"
    "get_prop example_weekly_event ''completedOccurrencesDates'' = JArr []"
    by (simp_all add: get_prop_def example_weekly_event_def)
  have m3: "markEventOccurrenceDone utc_zone (JStr ''user-1'') 1738746000000 ''e3'' example_db
      = (example_db\<lparr>events_col := (events_col example_db)(''e3'' \<mapsto>
            spread example_single_event
              [(''completedOccurrences'', JArr [JStr ''2025-02-05''])])\<rparr>,
         [(''Event occurrence marked as done!'', ToastSuccess)])"
    by (simp add: markEventOccurrenceDone_def e3 p3 today_is_5_february updateDoc_def Let_def)
  have m1: "markEventOccurrenceDone utc_zone (JStr ''user-1'') 1738746000000 ''e1'' example_db
      = (example_db\<lparr>events_col := (events_col example_db)(''e1'' \<mapsto>
            spread example_weekly_event
              [(''completedOccurrences'', JArr [JStr ''2025-02-05''])])\<rparr>,
         [(''Event occurrence marked as done!'', ToastSuccess)])"
    by (simp add: markEventOccurrenceDone_def e1 p1 today_is_5_february updateDoc_def Let_def)
  have c3: "collection_of ''event'' example_db ''e3'' = Some example_single_event"
    and c1: "collection_of ''event'' example_db ''e1'' = Some example_weekly_event"
    by (simp_all add: collection_of_def e3 e1)
  have h3: "events_col
          (fst (handleMarkDoneClick ''2025-02-05T09:00:00.000Z'' True ''e3'' ''event''
                  ''2025-02-05'' example_db)) ''e3''
       = Some (mark_done_doc ''2025-02-05T09:00:00.000Z'' ''2025-02-05'' example_single_event)"
    using handle_found_doc(1) [OF c3] by (simp add: collection_of_def)
  have h1: "events_col
          (fst (handleMarkDoneClick ''2025-02-05T09:00:00.000Z'' True ''e1'' ''event''
                  ''2025-02-05'' example_db)) ''e1''
       = Some (mark_done_doc ''2025-02-05T09:00:00.000Z'' ''2025-02-05'' example_weekly_event)"
    using handle_found_doc(1) [OF c1] by (simp add: collection_of_def)
  have keep: "completion_state (spread data [(''completedOccurrences'', v)])
                = completion_state data" for data v
    by (simp add: completion_state_def completed_dates_def get_prop_spread1)
  have d3: "set (completed_dates example_single_event) = {}"
    and d1: "set (completed_dates example_weekly_event) = {}"
    by (simp_all add: completed_dates_def p3 p1)
  have cs3: "completion_state example_single_event = (JBool False, {})"
    and cs1: "completion_state example_weekly_event = (JBool False, {})"
    by (simp_all add: completion_state_def p3 p1 d3 d1)
  have hs3: "completion_state
               (mark_done_doc ''2025-02-05T09:00:00.000Z'' ''2025-02-05'' example_single_event)
             = (JBool True, {})"
    by (simp add: completion_state_def mark_done_doc_dates mark_done_doc_isCompleted p3 d3)
  have hs1: "completion_state
               (mark_done_doc ''2025-02-05T09:00:00.000Z'' ''2025-02-05'' example_weekly_event)
             = (JBool False, {JStr ''2025-02-05''})"
    by (simp add: completion_state_def mark_done_doc_dates mark_done_doc_isCompleted p1 d1)
  show ?thesis
    by (simp add: e3 e1 p3 p1 m3 m1 h3 h1 keep cs3 cs1 hs3 hs1)
qed

text \<open>
  Claim C10. For a stored entity whose \<^verbatim>\<open>recurrence\<close> is absent (undefined, null or the
  empty string) the handler does what it does for \<^verbatim>\<open>'none'\<close>: it writes
  \<^verbatim>\<open>isCompleted: true\<close> and the time stamp, and \<^verbatim>\<open>completedOccurrencesDates\<close> stays as
  it was. Whenever the handler changes \<^verbatim>\<open>completedOccurrencesDates\<close>, the
  \<^verbatim>\<open>recurrence\<close> of the entity is present and is not \<^verbatim>\<open>'none'\<close>.
\<close>

theorem absent_recurrence_is_non_recurring:
  assumes "collection_of ty d ident = Some data"
  shows
    "(get_prop data ''recurrence'' = JUndefined \<or> get_prop data ''recurrence'' = JNull
        \<or> get_prop data ''recurrence'' = JStr '''' \<longrightarrow>
        collection_of ty (fst (handleMarkDoneClick now True ident ty occ d)) ident
          = Some (spread data [(''isCompleted'', JBool True), (''updatedAt'', JStr now)])
        \<and> get_prop (spread data [(''isCompleted'', JBool True), (''updatedAt'', JStr now)])
              ''isCompleted'' = JBool True
        \<and> get_prop (spread data [(''isCompleted'', JBool True), (''updatedAt'', JStr now)])
              ''completedOccurrencesDates'' = get_prop data ''completedOccurrencesDates'')
     \<and> (map_option (\<lambda>doc. get_prop doc ''completedOccurrencesDates'')
            (collection_of ty (fst (handleMarkDoneClick now True ident ty occ d)) ident)
          \<noteq> Some (get_prop data ''completedOccurrencesDates'') \<longrightarrow>
        truthy (get_prop data ''recurrence'') \<and> get_prop data ''recurrence'' \<noteq> JStr ''none'')"
proof -
  have one: "collection_of ty (fst (handleMarkDoneClick now True ident ty occ d)) ident
               = Some (mark_done_doc now occ data)"
    by (rule handle_found_doc(1) [OF assms])
  show ?thesis
    unfolding one by (auto simp: mark_done_doc_def get_prop_spread2)
qed

text \<open>
  The theorem at the task of the example store, which has no \<^verbatim>\<open>recurrence\<close> field, and
  at the weekly event, whose set of completed dates the handler changes.
\<close>

theorem absent_recurrence_witness:
  "collection_of ''task'' example_db ''t1'' = Some example_plain_task
   \<and> get_prop example_plain_task ''recurrence'' = JUndefined
   \<and> collection_of ''task''
       (fst (handleMarkDoneClick ''2025-02-05T09:00:00.000Z'' True ''t1'' ''task''
               ''2025-02-05'' example_db)) ''t1''
       = Some (spread example_plain_task
                 [(''isCompleted'', JBool True),
                  (''updatedAt'', JStr ''2025-02-05T09:00:00.000Z'')])
   \<and> get_prop (spread example_plain_task
                 [(''isCompleted'', JBool True),
                  (''updatedAt'', JStr ''2025-02-05T09:00:00.000Z'')])
         ''completedOccurrencesDates'' = JArr [JStr ''2025-01-01'']
   \<and> collection_of ''event'' example_db ''e1'' = Some example_weekly_event
   \<and> map_option (\<lambda>doc. get_prop doc ''completedOccurrencesDates'')
        (collection_of ''event''
           (fst (handleMarkDoneClick ''2025-02-05T09:00:00.000Z'' True ''e1'' ''event''
                   ''2025-02-05'' example_db)) ''e1'')
       \<noteq> Some (get_prop example_weekly_event ''completedOccurrencesDates'')
   \<and> truthy (get_prop example_weekly_event ''recurrence'')"
proof -
  have f: "collection_of ''task'' example_db ''t1'' = Some example_plain_task"
    by (simp add: collection_of_def example_db_def)
  have r: "get_prop example_plain_task ''recurrence'' = JUndefined"
    "get_prop example_plain_task ''completedOccurrencesDates'' = JArr [JStr ''2025-01-01'']"
    by (simp_all add: get_prop_def example_plain_task_def)
  have f1: "collection_of ''event'' example_db ''e1'' = Some example_weekly_event"
    by (simp add: collection_of_def example_db_def)
  have ch: "map_option (\<lambda>doc. get_prop doc ''completedOccurrencesDates'')
        (collection_of ''event''
           (fst (handleMarkDoneClick ''2025-02-05T09:00:00.000Z'' True ''e1'' ''event''
                   ''2025-02-05'' example_db)) ''e1'')
       \<noteq> Some (get_prop example_weekly_event ''completedOccurrencesDates'')"
    by (simp add: handle_found_doc(1) [OF f1] mark_done_doc_def get_prop_spread2
        completed_dates_def)
      (simp add: get_prop_def example_weekly_event_def)
  show ?thesis
    using f r f1 ch
      absent_recurrence_is_non_recurring [OF f, of "''2025-02-05T09:00:00.000Z''" "''2025-02-05''"]
      absent_recurrence_is_non_recurring [OF f1, of "''2025-02-05T09:00:00.000Z''" "''2025-02-05''"]
    by simp
qed

text \<open>
  Claim C5 says that a request to mark done an entity that the store does not hold is
  reported as not found. \<open>handleMarkDoneClick\<close> shows the error toast. The functions
  \<open>markEventOccurrenceDone\<close> and \<open>markTaskOccurrenceDone\<close> of the data service have no
  branch for a document that does not exist: for a signed-in user and an unknown id they
  return with the store unchanged and without any toast.
\<close>

theorem mark_done_missing_entity:
  "events_col example_db ''missing-id'' = None
   \<and> tasks_col example_db ''missing-id'' = None
   \<and> markEventOccurrenceDone utc_zone (JStr ''user-1'') 1738746000000 ''missing-id'' example_db
       = (example_db, [])
   \<and> markTaskOccurrenceDone utc_zone (JStr ''user-1'') 1738746000000 ''missing-id'' example_db
       = (example_db, [])
   \<and> handleMarkDoneClick ''2025-02-05T09:00:00.000Z'' True ''missing-id'' ''event''
         ''2025-02-05'' example_db
       = (example_db, [(''Error: Original event not found.'', ToastError)])"
  by (simp add: markEventOccurrenceDone_def markTaskOccurrenceDone_def
      handleMarkDoneClick_def collection_of_def example_db_def Let_def)

end
